theory Spec2Isabelle
  imports Complex_Main
begin

section \<open>Node registry (class BotNetServer)\<close>

text \<open>
  The registry is a JavaScript \<open>Map\<close> from server id to a server object; a \<open>Map\<close>
  iterates in insertion order and holds each key once, so it is modelled as an
  association list whose keys are distinct. Ids and statuses are strings, as in the
  source. \<open>capacity\<close> is a non-negative integer; \<open>activeBots\<close> is an integer that
  \<open>releaseBot\<close> may drive below zero. The fields \<open>id\<close>, \<open>name\<close> and \<open>status\<close> of a
  server are written \<open>server_id\<close>, \<open>server_name\<close> and \<open>server_status\<close>, apart from
  the fields of a bot.
\<close>

record server =
  server_id :: string
  server_name :: string
  region :: string
  capacity :: nat
  activeBots :: int
  server_status :: string
  lastPing :: int

type_synonym servers = "(string \<times> server) list"

text \<open>
  A JavaScript number is a double: \<open>NaN\<close>, an infinity, or a finite value, held here
  as the rational it denotes.
\<close>

datatype number = NaN | NegInfinity | Finite rat | Infinity

fun js_lt :: "number \<Rightarrow> number \<Rightarrow> bool" where
  "js_lt NaN _ = False"
| "js_lt _ NaN = False"
| "js_lt NegInfinity NegInfinity = False"
| "js_lt NegInfinity _ = True"
| "js_lt (Finite x) (Finite y) = (x < y)"
| "js_lt (Finite x) Infinity = True"
| "js_lt (Finite x) NegInfinity = False"
| "js_lt Infinity _ = False"

text \<open>
  Division of an integer by a non-negative integer, both held exactly by a double.
  Division by zero gives \<open>NaN\<close> or an infinity. Otherwise the quotient is rounded to
  the nearest double, ties to the even significand: \<open>binade n c\<close> is the exponent
  \<open>e\<close> with \<open>2 ^ e \<le> n / c < 2 ^ (e + 1)\<close>, the significand has 53 bits above the
  least exponent \<open>-1022\<close> and fewer below it, and a result of \<open>2 ^ 1024\<close> or more is an
  infinity.
\<close>

fun bits :: "nat \<Rightarrow> nat" where
  "bits n = (if n = 0 then 0 else Suc (bits (n div 2)))"

declare bits.simps [simp del]

definition binade :: "nat \<Rightarrow> nat \<Rightarrow> int" where
  "binade n c =
     (let d = int (bits n) - int (bits c)
      in if c * 2 ^ nat d \<le> n * 2 ^ nat (- d) then d else d - 1)"

definition round_half_even :: "nat \<Rightarrow> nat \<Rightarrow> nat" where
  "round_half_even num den =
     (let q = num div den; r = num mod den
      in if 2 * r < den then q else if den < 2 * r then q + 1
         else if even q then q else q + 1)"

definition pow2 :: "int \<Rightarrow> rat" where
  "pow2 k = (if 0 \<le> k then 2 ^ nat k else 1 / 2 ^ nat (- k))"

definition double_div :: "int \<Rightarrow> nat \<Rightarrow> number" where
  "double_div a c =
     (if c = 0 then (if a = 0 then NaN else if 0 < a then Infinity else NegInfinity)
      else if a = 0 then Finite 0
      else let n = nat \<bar>a\<bar>;
               e = binade n c;
               s = max e (- 1022) - 52;
               m = round_half_even (n * 2 ^ nat (- s)) (c * 2 ^ nat s)
           in if 1024 \<le> e \<or> (e = 1023 \<and> m = 2 ^ 53)
              then (if 0 < a then Infinity else NegInfinity)
              else Finite ((if 0 < a then 1 else - 1) * of_nat m * pow2 s))"

definition loadRatio :: "server \<Rightarrow> number" where
  "loadRatio s = double_div (activeBots s) (capacity s)"


text \<open>\<open>initializeServers\<close>: the default pool, all online with no load.\<close>

definition defaultServer :: "string \<Rightarrow> string \<Rightarrow> string \<Rightarrow> int \<Rightarrow> server" where
  "defaultServer i n r t =
     \<lparr>server_id = i, server_name = n, region = r, capacity = 100, activeBots = 0,
       server_status = ''online'', lastPing = t\<rparr>"

definition initializeServers :: "int \<Rightarrow> servers" where
  "initializeServers t =
     [(''server-1'', defaultServer ''server-1'' ''Ladybug Node Alpha'' ''us-east'' t),
      (''server-2'', defaultServer ''server-2'' ''Ladybug Node Beta'' ''us-west'' t),
      (''server-3'', defaultServer ''server-3'' ''Ladybug Node Gamma'' ''eu-west'' t)]"

text \<open>
  The loop of \<open>assignBot\<close>: \<open>best\<close> and \<open>minLoad\<close> are the loop variables
  \<open>bestServer\<close> (\<open>None\<close> for \<open>null\<close>) and \<open>minLoad\<close>.
\<close>

fun assign_loop :: "servers \<Rightarrow> string option \<Rightarrow> number \<Rightarrow> string option" where
  "assign_loop [] best minLoad = best"
| "assign_loop ((serverId, s) # rest) best minLoad =
     (if js_lt (loadRatio s) minLoad \<and> server_status s = ''online''
      then assign_loop rest (Some serverId) (loadRatio s)
      else assign_loop rest best minLoad)"

text \<open>\<open>this.servers.get(k)\<close> followed by a mutation of the object found.\<close>

fun modify :: "string \<Rightarrow> (server \<Rightarrow> server) \<Rightarrow> servers \<Rightarrow> servers" where
  "modify k f [] = []"
| "modify k f ((k', s) # rest) =
     (if k' = k then (k', f s) # rest else (k', s) # modify k f rest)"

text \<open>
  \<open>assignBot\<close> returns the chosen id (or \<open>None\<close> for \<open>null\<close>) and the registry after
  the call. The test \<open>if (bestServer)\<close> is a truthiness test: the empty string fails it.
\<close>

definition assignBot :: "servers \<Rightarrow> string option \<times> servers" where
  "assignBot svs =
     (case assign_loop svs None Infinity of
        None \<Rightarrow> (None, svs)
      | Some bestServer \<Rightarrow>
          if bestServer = [] then (None, svs)
          else (Some bestServer, modify bestServer (\<lambda>s. s\<lparr>activeBots := activeBots s + 1\<rparr>) svs))"

definition releaseBot :: "string \<Rightarrow> servers \<Rightarrow> servers" where
  "releaseBot serverId svs =
     (if serverId \<in> fst ` set svs
      then modify serverId (\<lambda>s. s\<lparr>activeBots := activeBots s - 1\<rparr>) svs
      else svs)"

text \<open>
  The walk over the call sequences of the registry: \<open>Assign\<close> is a call of
  \<open>assignBot()\<close>, \<open>Release k\<close> a call of \<open>releaseBot(k)\<close>.
\<close>

datatype call = Assign | Release string

fun step :: "servers \<Rightarrow> call \<Rightarrow> servers" where
  "step svs Assign = snd (assignBot svs)"
| "step svs (Release k) = releaseBot k svs"

definition run :: "servers \<Rightarrow> call list \<Rightarrow> servers" where
  "run svs cs = foldl step svs cs"

section \<open>Bot documents and the record store\<close>

text \<open>
  A bot document follows \<open>BotSchema\<close>. \<open>_id\<close> is modelled as a natural number,
  dates as milliseconds since the epoch, \<open>type\<close> and \<open>status\<close> as the strings they
  are, and \<open>config\<close> as an optional list of string-valued entries (\<open>None\<close> when the
  document has no \<open>config\<close> at all).
\<close>

record metrics =
  uptime :: rat
  requests :: int
  errors :: int

record bot =
  bot_id :: nat
  name :: string
  type :: string
  status :: string
  serverId :: string
  config :: "(string \<times> string) list option"
  createdAt :: int
  lastActive :: int
  metrics :: metrics

text \<open>
  The outside world as the worker sees it: whether a query of the store succeeds,
  whether the store accepts a write of a given document (validation or connection
  errors), whether a delete succeeds, and what an HTTP GET of a URL with a timeout in
  milliseconds gives: a response with a status code (\<open>validateStatus\<close> accepts every
  code), or an exception (network error or timeout).
\<close>

datatype http_result = Response nat | RequestError

record env =
  findOk :: bool
  saveOk :: "bot \<Rightarrow> bool"
  deleteOk :: "nat \<Rightarrow> bool"
  httpGet :: "string \<Rightarrow> nat \<Rightarrow> http_result"

text \<open>
  A timer callback holds the in-memory document it closed over. \<open>RestartBot\<close> is the
  callback \<open>() => this.restartBot(bot)\<close> of the heartbeat sweep, \<open>CompleteRestart\<close>
  the delayed second half of \<open>restartBot\<close>.
\<close>

datatype task = RestartBot bot | CompleteRestart bot

record stats =
  total :: nat
  running :: nat
  error :: nat
  idle :: nat
  starting :: nat

text \<open>What is handed to \<open>sendAlert\<close> and \<open>sendMetrics\<close>.\<close>

datatype message = Alert string | Metrics stats

text \<open>
  The state the sweeps act on: the server process's registry, the documents in the
  store (in the order a query returns them), the timers set with their delay in
  milliseconds, the HTTP requests issued (URL and timeout), the calls made to the
  alerting and metrics sink, the messages given to \<open>logger.error\<close>, and whether
  \<open>process.exit\<close> has been called.
\<close>

record world =
  servers :: servers
  db :: "bot list"
  timers :: "(nat \<times> task) list"
  requested :: "(string \<times> nat) list"
  sink :: "message list"
  errorLog :: "string list"
  exited :: bool

datatype outcome = Resolved | Rejected

text \<open>
  \<open>Bot.find(filter)\<close>, \<open>Bot.findById\<close>, \<open>doc.save()\<close> for a document loaded from
  the store, and \<open>Bot.findByIdAndDelete\<close>. \<open>None\<close> is a rejected promise.

  A save writes back the modified paths only: the fields whose value in memory
  (\<open>new\<close>) differs from the value the document was loaded or last saved with
  (\<open>old\<close>). Every other field of the stored document stays as the store has it, also
  when another writer has changed it in between. A save with nothing modified writes
  nothing. A save is rejected when the store refuses the write, or when it has to
  write and the store no longer holds a document of that \<open>_id\<close>.
\<close>

definition write_back :: "bot \<Rightarrow> bot \<Rightarrow> bot \<Rightarrow> bot" where
  "write_back old new d =
     d\<lparr>name := (if name new = name old then name d else name new),
       type := (if type new = type old then type d else type new),
       status := (if status new = status old then status d else status new),
       serverId := (if serverId new = serverId old then serverId d else serverId new),
       config := (if config new = config old then config d else config new),
       createdAt := (if createdAt new = createdAt old then createdAt d else createdAt new),
       lastActive := (if lastActive new = lastActive old then lastActive d else lastActive new),
       metrics :=
         \<lparr>uptime = (if uptime (metrics new) = uptime (metrics old)
                     then uptime (metrics d) else uptime (metrics new)),
          requests = (if requests (metrics new) = requests (metrics old)
                      then requests (metrics d) else requests (metrics new)),
          errors = (if errors (metrics new) = errors (metrics old)
                    then errors (metrics d) else errors (metrics new))\<rparr>\<rparr>"

definition find_bots :: "env \<Rightarrow> (bot \<Rightarrow> bool) \<Rightarrow> bot list \<Rightarrow> bot list option" where
  "find_bots e p docs = (if findOk e then Some (filter p docs) else None)"

definition findById :: "nat \<Rightarrow> bot list \<Rightarrow> bot option" where
  "findById i docs = find (\<lambda>d. bot_id d = i) docs"

definition save :: "env \<Rightarrow> bot \<Rightarrow> bot \<Rightarrow> bot list \<Rightarrow> bot list option" where
  "save e old new docs =
     (if \<not> saveOk e new then None
      else if new = old then Some docs
      else if bot_id new \<in> bot_id ` set docs
      then Some (map (\<lambda>d. if bot_id d = bot_id new then write_back old new d else d) docs)
      else None)"

definition findByIdAndDelete :: "env \<Rightarrow> nat \<Rightarrow> bot list \<Rightarrow> bot list option" where
  "findByIdAndDelete e i docs =
     (if deleteOk e i then Some (filter (\<lambda>d. bot_id d \<noteq> i) docs) else None)"

section \<open>Health evaluation (BotManager.checkBotHealth)\<close>

text \<open>
  Each check returns the verdict and the HTTP requests it issued. \<open>now\<close> is the value
  of \<open>Date.now()\<close>.
\<close>

definition checkDiscordBot :: "int \<Rightarrow> bot \<Rightarrow> bool" where
  "checkDiscordBot now b = (now - lastActive b < 2 * 60 * 1000)"

definition checkTelegramBot :: "int \<Rightarrow> bot \<Rightarrow> bool" where
  "checkTelegramBot now b = (now - lastActive b < 2 * 60 * 1000)"

text \<open>
  \<open>bot.config && bot.config.targetUrl\<close>: the config exists and holds a truthy
  \<open>targetUrl\<close>, that is a non-empty string.
\<close>

definition targetUrl :: "bot \<Rightarrow> string option" where
  "targetUrl b =
     (case config b of
        None \<Rightarrow> None
      | Some c \<Rightarrow> (case map_of c ''targetUrl'' of
                    None \<Rightarrow> None
                  | Some u \<Rightarrow> if u = [] then None else Some u))"

definition checkWebBot :: "env \<Rightarrow> bot \<Rightarrow> bool \<times> (string \<times> nat) list" where
  "checkWebBot e b =
     (case targetUrl b of
        Some u \<Rightarrow>
          (case httpGet e u 5000 of
             Response st \<Rightarrow> (st < 500, [(u, 5000)])
           | RequestError \<Rightarrow> (False, [(u, 5000)]))
      | None \<Rightarrow> (True, []))"

definition checkMonitorBot :: "bot \<Rightarrow> bool" where
  "checkMonitorBot b = (errors (metrics b) < 3)"

definition checkCustomBot :: "int \<Rightarrow> bot \<Rightarrow> bool" where
  "checkCustomBot now b = (now - lastActive b < 5 * 60 * 1000)"

definition checkBotHealth :: "env \<Rightarrow> int \<Rightarrow> bot \<Rightarrow> bool \<times> (string \<times> nat) list" where
  "checkBotHealth e now b =
     (if type b = ''discord'' then (checkDiscordBot now b, [])
      else if type b = ''telegram'' then (checkTelegramBot now b, [])
      else if type b = ''web'' then checkWebBot e b
      else if type b = ''monitor'' then (checkMonitorBot b, [])
      else (checkCustomBot now b, []))"

text \<open>
  The \<open>try\<close>/\<open>catch\<close> around the dispatch of \<open>checkBotHealth\<close> has nothing to
  catch in this model: a document always has its \<open>metrics\<close>, and \<open>checkWebBot\<close>
  catches the exception of the request itself.
\<close>

section \<open>Lifecycle sweeps (class BotManager)\<close>

text \<open>
  A loop over the documents of a query stops at the first rejected promise, which the
  \<open>catch\<close> of the sweep logs; what was written before stays written.
\<close>

text \<open>
  \<open>sendAlert\<close> and \<open>sendMetrics\<close> post to the webhook only when \<open>WEBHOOK_URL\<close> is
  set, and catch their own failures; the state records the call and its argument.
\<close>

definition logError :: "string \<Rightarrow> world \<Rightarrow> world" where
  "logError m w = w\<lparr>errorLog := errorLog w @ [m]\<rparr>"



subsection \<open>Heartbeat sweep\<close>


definition markFailed :: "bot \<Rightarrow> bot" where
  "markFailed b = b\<lparr>status := ''error'', metrics := (metrics b)\<lparr>errors := errors (metrics b) + 1\<rparr>\<rparr>"




subsection \<open>Aggregate health sweep\<close>




subsection \<open>Restart\<close>

text \<open>
  \<open>restartBot\<close> up to the point where its promise settles: the first save, the timer
  for the second half, and the \<open>catch\<close>. A rejected save leaves the document in memory
  modified against what was loaded, so the save in the \<open>catch\<close> is against \<open>b\<close> too.
  \<open>completeRestart\<close> is the timer's callback; it runs after \<open>restartBot\<close> has returned,
  outside its \<open>try\<close>, on the document as the first save left it.
\<close>

definition restartBot :: "env \<Rightarrow> bot \<Rightarrow> world \<Rightarrow> outcome \<times> world" where
  "restartBot e b w =
     (let b1 = b\<lparr>status := ''starting''\<rparr>
      in case save e b b1 (db w) of
           Some docs \<Rightarrow> (Resolved, w\<lparr>db := docs, timers := timers w @ [(3000, CompleteRestart b1)]\<rparr>)
         | None \<Rightarrow>
             (let w1 = logError ''Failed to restart bot'' w;
                  b2 = markFailed b1
              in case save e b b2 (db w1) of
                   Some docs \<Rightarrow> (Resolved, w1\<lparr>db := docs\<rparr>)
                 | None \<Rightarrow> (Rejected, w1)))"

definition completeRestart :: "env \<Rightarrow> int \<Rightarrow> bot \<Rightarrow> world \<Rightarrow> outcome \<times> world" where
  "completeRestart e now b w =
     (case save e b (b\<lparr>status := ''running'', lastActive := now\<rparr>) (db w) of
        Some docs \<Rightarrow> (Resolved, w\<lparr>db := docs\<rparr>)
      | None \<Rightarrow> (Rejected, w))"

text \<open>
  A timer fires: nothing awaits the promise of its callback, so a rejection reaches
  the \<open>unhandledRejection\<close> handler, which logs and calls \<open>process.exit(1)\<close>.
\<close>

fun run_task :: "env \<Rightarrow> int \<Rightarrow> task \<Rightarrow> world \<Rightarrow> outcome \<times> world" where
  "run_task e now (RestartBot b) w = restartBot e b w"
| "run_task e now (CompleteRestart b) w = completeRestart e now b w"

definition fire :: "env \<Rightarrow> int \<Rightarrow> task \<Rightarrow> world \<Rightarrow> world" where
  "fire e now t w =
     (case run_task e now t w of
        (Resolved, w') \<Rightarrow> w'
      | (Rejected, w') \<Rightarrow> (logError ''Unhandled Rejection at:'' w')\<lparr>exited := True\<rparr>)"



subsection \<open>Stop and orphan cleanup\<close>

text \<open>\<open>botProcesses\<close> is never written, so \<open>stopBot\<close> only sets the status and saves.\<close>

definition stopBot :: "env \<Rightarrow> bot \<Rightarrow> world \<Rightarrow> world" where
  "stopBot e b w =
     (case save e b (b\<lparr>status := ''stopped''\<rparr>) (db w) of
        Some docs \<Rightarrow> w\<lparr>db := docs\<rparr>
      | None \<Rightarrow> logError ''Failed to stop bot'' w)"

fun cleanup_loop :: "env \<Rightarrow> bot list \<Rightarrow> world \<Rightarrow> outcome \<times> world" where
  "cleanup_loop e [] w = (Resolved, w)"
| "cleanup_loop e (b # bs) w =
     (let w1 = stopBot e b w
      in case findByIdAndDelete e (bot_id b) (db w1) of
           None \<Rightarrow> (Rejected, w1)
         | Some docs \<Rightarrow> cleanup_loop e bs (w1\<lparr>db := docs\<rparr>))"

definition orphaned :: "int \<Rightarrow> bot \<Rightarrow> bool" where
  "orphaned now b =
     (lastActive b < now - 24 * 60 * 60 * 1000 \<and> (status b = ''error'' \<or> status b = ''idle''))"

definition cleanupOrphanedBots :: "env \<Rightarrow> int \<Rightarrow> world \<Rightarrow> world" where
  "cleanupOrphanedBots e now w =
     (case find_bots e (orphaned now) (db w) of
        None \<Rightarrow> logError ''Bot cleanup failed:'' w
      | Some orphanedBots \<Rightarrow>
          (case cleanup_loop e orphanedBots w of
             (Resolved, w') \<Rightarrow> w'
           | (Rejected, w') \<Rightarrow> logError ''Bot cleanup failed:'' w'))"

subsection \<open>The server's delete route\<close>

text \<open>
  \<open>DELETE /api/bots/:id\<close> in the server process: the one place that calls
  \<open>releaseBot\<close>. Only its effect on the registry and the store is modelled.
\<close>

definition deleteBotRoute :: "env \<Rightarrow> nat \<Rightarrow> world \<Rightarrow> world" where
  "deleteBotRoute e i w =
     (if \<not> findOk e then w
      else case findById i (db w) of
             None \<Rightarrow> w
           | Some b \<Rightarrow>
               (let w1 = w\<lparr>servers := releaseBot (serverId b) (servers w)\<rparr>
                in case findByIdAndDelete e i (db w1) of
                     None \<Rightarrow> w1
                   | Some docs \<Rightarrow> w1\<lparr>db := docs\<rparr>))"

section \<open>Notions used in the statements\<close>

text \<open>
  The load of a server as \<open>assignBot\<close> computes it, when it is a finite number: the
  double nearest to \<open>activeBots / capacity\<close>, as a rational.
\<close>

definition load :: "server \<Rightarrow> rat" where
  "load s = (case loadRatio s of Finite q \<Rightarrow> q | _ \<Rightarrow> 0)"

text \<open>
  A server whose capacity is positive and whose two counts are integers that a double
  holds exactly, \<open>activeBots\<close> with room for one more.
\<close>

definition well_formed :: "server \<Rightarrow> bool" where
  "well_formed s =
     (0 < capacity s \<and> int (capacity s) \<le> 2 ^ 53 \<and> \<bar>activeBots s\<bar> < 2 ^ 53)"

definition online_at :: "servers \<Rightarrow> nat \<Rightarrow> bool" where
  "online_at svs j = (server_status (snd (svs ! j)) = ''online'')"

text \<open>
  Position \<open>i\<close> holds an online server whose load is least among the online servers
  and strictly below the load of every online server before it.
\<close>

definition least_loaded_at :: "servers \<Rightarrow> nat \<Rightarrow> bool" where
  "least_loaded_at svs i =
     (i < length svs \<and> online_at svs i \<and>
      (\<forall>j < length svs. online_at svs j \<longrightarrow> load (snd (svs ! i)) \<le> load (snd (svs ! j))) \<and>
      (\<forall>j < i. online_at svs j \<longrightarrow> load (snd (svs ! i)) < load (snd (svs ! j))))"

text \<open>
  Two online servers above their capacity whose exact ratios differ,
  \<open>100000002 / 100000001 < 100000001 / 100000000\<close>, and round to the same double;
  and a pool with one online server of capacity zero.
\<close>

definition close_first :: server where
  "close_first =
     \<lparr>server_id = ''server-1'', server_name = ''A'', region = ''us-east'',
      capacity = 100000000, activeBots = 100000001, server_status = ''online'', lastPing = 0\<rparr>"

definition close_second :: server where
  "close_second =
     \<lparr>server_id = ''server-2'', server_name = ''B'', region = ''us-west'',
      capacity = 100000001, activeBots = 100000002, server_status = ''online'', lastPing = 0\<rparr>"

definition close_pool :: servers where
  "close_pool = [(''server-1'', close_first), (''server-2'', close_second)]"

definition zero_capacity_pool :: servers where
  "zero_capacity_pool =
     [(''server-1'',
       \<lparr>server_id = ''server-1'', server_name = ''A'', region = ''us-east'', capacity = 0,
        activeBots = 0, server_status = ''online'', lastPing = 0\<rparr>)]"

text \<open>
  Along a run of calls from \<open>svs\<close>: the number of \<open>assignBot\<close> calls that returned
  \<open>k\<close>, less the number of \<open>releaseBot\<close> calls that named \<open>k\<close>.
\<close>

fun balance :: "servers \<Rightarrow> call list \<Rightarrow> string \<Rightarrow> int" where
  "balance svs [] k = 0"
| "balance svs (Assign # cs) k =
     (if fst (assignBot svs) = Some k then 1 else 0) + balance (step svs Assign) cs k"
| "balance svs (Release i # cs) k =
     (if i = k then - 1 else 0) + balance (step svs (Release i)) cs k"








section \<open>Concrete documents and environments\<close>

text \<open>
  A document with the given id, type, status, \<open>lastActive\<close> and error count, and the
  default empty \<open>config\<close>; an environment whose store accepts everything, with a given
  answer to HTTP requests; a state holding given documents and the initial registry.
\<close>

definition mk_bot :: "nat \<Rightarrow> string \<Rightarrow> string \<Rightarrow> int \<Rightarrow> int \<Rightarrow> bot" where
  "mk_bot i ty st la er =
     \<lparr>bot_id = i, name = ''Test Bot'', type = ty, status = st, serverId = ''server-1'',
      config = Some [], createdAt = 0, lastActive = la,
      metrics = \<lparr>uptime = 0, requests = 0, errors = er\<rparr>\<rparr>"

definition env_with :: "(string \<Rightarrow> nat \<Rightarrow> http_result) \<Rightarrow> env" where
  "env_with h = \<lparr>findOk = True, saveOk = (\<lambda>b. True), deleteOk = (\<lambda>i. True), httpGet = h\<rparr>"

definition unreachable :: "string \<Rightarrow> nat \<Rightarrow> http_result" where
  "unreachable u t = RequestError"

definition answers :: "nat \<Rightarrow> string \<Rightarrow> nat \<Rightarrow> http_result" where
  "answers st u t = Response st"


definition world_of :: "bot list \<Rightarrow> world" where
  "world_of docs =
     \<lparr>servers = initializeServers 0, db = docs, timers = [], requested = [], sink = [],
      errorLog = [], exited = False\<rparr>"



text \<open>
  A store with a bot idle for 25 hours and one idle for an hour, seen at time
  90000000, both placed on \<open>server-1\<close>, whose count stands at one; an environment in
  which the store fails every call; the state after \<open>restartBot\<close> has begun the restart
  of a bot in \<open>error\<close>.
\<close>

definition orphan_world :: world where
  "orphan_world =
     (world_of [mk_bot 1 ''discord'' ''idle'' 0 0, mk_bot 2 ''discord'' ''idle'' 86400000 0])
       \<lparr>servers := snd (assignBot (initializeServers 0))\<rparr>"

definition store_down :: env where
  "store_down = \<lparr>findOk = False, saveOk = (\<lambda>b. False), deleteOk = (\<lambda>i. False), httpGet = unreachable\<rparr>"

definition restart_begun :: world where
  "restart_begun =
     snd (restartBot (env_with unreachable) (mk_bot 1 ''discord'' ''error'' 0 2)
            (world_of [mk_bot 1 ''discord'' ''error'' 0 2]))"







section \<open>The placement policy\<close>

lemma bits_le: "n < 2 ^ k \<Longrightarrow> bits n \<le> k"
proof (induction k arbitrary: n)
  case 0
  then show ?case by (simp add: bits.simps)
next
  case (Suc k)
  show ?case
  proof (cases "n = 0")
    case True
    then show ?thesis by (simp add: bits.simps)
  next
    case False
    from Suc.prems have "n div 2 < 2 ^ k" by simp
    from Suc.IH [OF this] False show ?thesis by (subst bits.simps) simp
  qed
qed

lemma binade_le: "binade n c \<le> int (bits n)"
  by (simp add: binade_def Let_def)

lemma double_div_Finite:
  assumes "0 < c" and "\<bar>a\<bar> \<le> 2 ^ 53"
  shows "\<exists>q. double_div a c = Finite q"
proof (cases "a = 0")
  case True
  with assms(1) show ?thesis by (simp add: double_div_def)
next
  case False
  from assms(2) have "nat \<bar>a\<bar> < 2 ^ 54" by (simp add: nat_less_iff)
  then have "bits (nat \<bar>a\<bar>) \<le> 54" by (rule bits_le)
  with binade_le [of "nat \<bar>a\<bar>" c] have "binade (nat \<bar>a\<bar>) c \<le> 54" by simp
  then have "\<not> 1024 \<le> binade (nat \<bar>a\<bar>) c" and "binade (nat \<bar>a\<bar>) c \<noteq> 1023" by simp_all
  with assms(1) False show ?thesis by (simp add: double_div_def Let_def)
qed

lemma loadRatio_Finite: "well_formed s \<Longrightarrow> loadRatio s = Finite (load s)"
proof -
  assume "well_formed s"
  then obtain q where "loadRatio s = Finite q"
    using double_div_Finite [of "capacity s" "activeBots s"]
    by (auto simp: well_formed_def loadRatio_def)
  then show ?thesis by (simp add: load_def)
qed

lemma assign_loop_Finite:
  assumes "\<forall>(k, s) \<in> set svs. well_formed s"
  shows "(assign_loop svs best (Finite m) = best \<and>
            (\<forall>j < length svs. online_at svs j \<longrightarrow> m \<le> load (snd (svs ! j)))) \<or>
         (\<exists>i. least_loaded_at svs i \<and> load (snd (svs ! i)) < m \<and>
              assign_loop svs best (Finite m) = Some (fst (svs ! i)))"
  using assms
proof (induction svs arbitrary: best m)
  case Nil
  then show ?case by simp
next
  case (Cons p rest)
  obtain k s where p: "p = (k, s)" by (cases p)
  from Cons.prems p have cap: "well_formed s" and caps: "\<forall>(k, s) \<in> set rest. well_formed s"
    by auto
  show ?case
  proof (cases "load s < m \<and> server_status s = ''online''")
    case True
    then have step: "assign_loop (p # rest) best (Finite m) = assign_loop rest (Some k) (Finite (load s))"
      using p cap by (simp add: loadRatio_Finite)
    from Cons.IH [OF caps, of "Some k" "load s"] show ?thesis
    proof
      assume a: "assign_loop rest (Some k) (Finite (load s)) = Some k \<and>
        (\<forall>j<length rest. online_at rest j \<longrightarrow> load s \<le> load (snd (rest ! j)))"
      have "least_loaded_at (p # rest) 0"
        unfolding least_loaded_at_def using a True p
        by (auto simp: online_at_def nth_Cons split: nat.splits)
      then show ?thesis using a True step p by (intro disjI2 exI [of _ 0]) simp
    next
      assume "\<exists>i. least_loaded_at rest i \<and> load (snd (rest ! i)) < load s \<and>
        assign_loop rest (Some k) (Finite (load s)) = Some (fst (rest ! i))"
      then obtain i where i: "least_loaded_at rest i" "load (snd (rest ! i)) < load s"
        "assign_loop rest (Some k) (Finite (load s)) = Some (fst (rest ! i))" by blast
      have "least_loaded_at (p # rest) (Suc i)"
        unfolding least_loaded_at_def using i(1,2) p
        by (auto simp: least_loaded_at_def online_at_def nth_Cons less_Suc_eq_0_disj split: nat.splits)
      then show ?thesis using i True step by (intro disjI2 exI [of _ "Suc i"]) auto
    qed
  next
    case False
    then have step: "assign_loop (p # rest) best (Finite m) = assign_loop rest best (Finite m)"
      using p cap by (auto simp: loadRatio_Finite)
    from Cons.IH [OF caps, of best m] show ?thesis
    proof
      assume a: "assign_loop rest best (Finite m) = best \<and>
        (\<forall>j<length rest. online_at rest j \<longrightarrow> m \<le> load (snd (rest ! j)))"
      then show ?thesis using False step p
        by (intro disjI1) (auto simp: online_at_def nth_Cons split: nat.splits)
    next
      assume "\<exists>i. least_loaded_at rest i \<and> load (snd (rest ! i)) < m \<and>
        assign_loop rest best (Finite m) = Some (fst (rest ! i))"
      then obtain i where i: "least_loaded_at rest i" "load (snd (rest ! i)) < m"
        "assign_loop rest best (Finite m) = Some (fst (rest ! i))" by blast
      have "least_loaded_at (p # rest) (Suc i)"
        unfolding least_loaded_at_def using i(1,2) p False
        by (auto simp: least_loaded_at_def online_at_def nth_Cons less_Suc_eq_0_disj split: nat.splits)
      then show ?thesis using i step by (intro disjI2 exI [of _ "Suc i"]) auto
    qed
  qed
qed

lemma assign_loop_Infinity:
  assumes "\<forall>(k, s) \<in> set svs. well_formed s"
  shows "(assign_loop svs None Infinity = None \<and> (\<forall>j < length svs. \<not> online_at svs j)) \<or>
         (\<exists>i. least_loaded_at svs i \<and> assign_loop svs None Infinity = Some (fst (svs ! i)))"
  using assms
proof (induction svs)
  case Nil
  then show ?case by simp
next
  case (Cons p rest)
  obtain k s where p: "p = (k, s)" by (cases p)
  from Cons.prems p have cap: "well_formed s" and caps: "\<forall>(k, s) \<in> set rest. well_formed s"
    by auto
  show ?case
  proof (cases "server_status s = ''online''")
    case True
    then have step: "assign_loop (p # rest) None Infinity = assign_loop rest (Some k) (Finite (load s))"
      using p cap by (simp add: loadRatio_Finite)
    from assign_loop_Finite [OF caps, of "Some k" "load s"] show ?thesis
    proof
      assume a: "assign_loop rest (Some k) (Finite (load s)) = Some k \<and>
        (\<forall>j<length rest. online_at rest j \<longrightarrow> load s \<le> load (snd (rest ! j)))"
      have "least_loaded_at (p # rest) 0"
        unfolding least_loaded_at_def using a True p
        by (auto simp: online_at_def nth_Cons split: nat.splits)
      then show ?thesis using a step p by (intro disjI2 exI [of _ 0]) simp
    next
      assume "\<exists>i. least_loaded_at rest i \<and> load (snd (rest ! i)) < load s \<and>
        assign_loop rest (Some k) (Finite (load s)) = Some (fst (rest ! i))"
      then obtain i where i: "least_loaded_at rest i" "load (snd (rest ! i)) < load s"
        "assign_loop rest (Some k) (Finite (load s)) = Some (fst (rest ! i))" by blast
      have "least_loaded_at (p # rest) (Suc i)"
        unfolding least_loaded_at_def using i(1,2) p
        by (auto simp: least_loaded_at_def online_at_def nth_Cons less_Suc_eq_0_disj split: nat.splits)
      then show ?thesis using i step by (intro disjI2 exI [of _ "Suc i"]) auto
    qed
  next
    case False
    then have step: "assign_loop (p # rest) None Infinity = assign_loop rest None Infinity"
      using p by simp
    from Cons.IH [OF caps] show ?thesis
    proof
      assume a: "assign_loop rest None Infinity = None \<and> (\<forall>j<length rest. \<not> online_at rest j)"
      then show ?thesis using False step p
        by (intro disjI1) (auto simp: online_at_def nth_Cons split: nat.splits)
    next
      assume "\<exists>i. least_loaded_at rest i \<and> assign_loop rest None Infinity = Some (fst (rest ! i))"
      then obtain i where i: "least_loaded_at rest i"
        "assign_loop rest None Infinity = Some (fst (rest ! i))" by blast
      have "least_loaded_at (p # rest) (Suc i)"
        unfolding least_loaded_at_def using i(1) p False
        by (auto simp: least_loaded_at_def online_at_def nth_Cons less_Suc_eq_0_disj split: nat.splits)
      then show ?thesis using i step by (intro disjI2 exI [of _ "Suc i"]) auto
    qed
  qed
qed

lemma modify_nth:
  "distinct (map fst svs) \<Longrightarrow> i < length svs \<Longrightarrow>
   modify (fst (svs ! i)) f svs = svs[i := (fst (svs ! i), f (snd (svs ! i)))]"
proof (induction svs arbitrary: i)
  case Nil
  then show ?case by simp
next
  case (Cons p rest)
  obtain k s where p: "p = (k, s)" by (cases p)
  show ?case
  proof (cases i)
    case 0
    then show ?thesis using p by simp
  next
    case (Suc n)
    with Cons.prems p have "fst (rest ! n) \<noteq> k"
      by (metis Suc_less_eq distinct.simps(2) fst_conv length_Cons list.simps(9) nth_map nth_mem length_map)
    then show ?thesis using Suc Cons p by simp
  qed
qed

text \<open>
  C1, as amended. For a registry with distinct ids in which every server has a
  non-empty id, a positive capacity of at most \<open>2 ^ 53\<close>, and an \<open>activeBots\<close> below
  \<open>2 ^ 53\<close> in magnitude (integers that a double holds exactly):
  \<open>assignBot\<close> returns \<open>None\<close> exactly when no server is online and then leaves the
  registry as it is; otherwise it returns the id at the first position holding an
  online server of least load, the load being \<open>activeBots / capacity\<close> rounded to a
  double as the code computes it, whatever that load is (it may exceed 1); and it adds
  one to the \<open>activeBots\<close> of the server at that position and changes nothing else.
  Servers whose exact ratios differ but round to the same double tie, and the first of
  them wins.
\<close>

theorem assignBot_least_loaded:
  assumes "distinct (map fst svs)"
    and "\<forall>(k, s) \<in> set svs. k \<noteq> [] \<and> well_formed s"
  shows "((fst (assignBot svs) = None) = (\<forall>j < length svs. \<not> online_at svs j)) \<and>
         (fst (assignBot svs) = None \<longrightarrow> snd (assignBot svs) = svs) \<and>
         (\<forall>k. fst (assignBot svs) = Some k \<longrightarrow>
            (\<exists>i. least_loaded_at svs i \<and> fst (svs ! i) = k \<and>
                 snd (assignBot svs) =
                   svs[i := (k, (snd (svs ! i))\<lparr>activeBots := activeBots (snd (svs ! i)) + 1\<rparr>)]))"
proof -
  from assms(2) have caps: "\<forall>(k, s) \<in> set svs. well_formed s" by auto
  from assign_loop_Infinity [OF caps] show ?thesis
  proof
    assume "assign_loop svs None Infinity = None \<and> (\<forall>j<length svs. \<not> online_at svs j)"
    then show ?thesis by (simp add: assignBot_def)
  next
    assume "\<exists>i. least_loaded_at svs i \<and> assign_loop svs None Infinity = Some (fst (svs ! i))"
    then obtain i where i: "least_loaded_at svs i"
      and r: "assign_loop svs None Infinity = Some (fst (svs ! i))" by blast
    from i have len: "i < length svs" and on: "online_at svs i"
      by (simp_all add: least_loaded_at_def)
    from len assms(2) have ne: "fst (svs ! i) \<noteq> []"
      by (metis (mono_tags, lifting) case_prod_unfold nth_mem)
    have res: "assignBot svs =
      (Some (fst (svs ! i)),
       svs[i := (fst (svs ! i), (snd (svs ! i))\<lparr>activeBots := activeBots (snd (svs ! i)) + 1\<rparr>)])"
      using r ne modify_nth [OF assms(1) len] by (simp add: assignBot_def)
    have "\<not> (\<forall>j < length svs. \<not> online_at svs j)" using len on by blast
    then show ?thesis using res i by auto
  qed
qed

lemma load_close_first: "loadRatio close_first = Finite (1125899918101623 / 1125899906842624)"
  apply (simp only: loadRatio_def double_div_def Let_def close_first_def server.simps)
  apply (simp add: binade_def bits.simps Let_def)
  apply (simp add: round_half_even_def pow2_def Let_def)
  done

lemma load_close_second: "loadRatio close_second = Finite (1125899918101623 / 1125899906842624)"
  apply (simp only: loadRatio_def double_div_def Let_def close_second_def server.simps)
  apply (simp add: binade_def bits.simps Let_def)
  apply (simp add: round_half_even_def pow2_def Let_def)
  done

text \<open>
  An instance: two online servers above their capacity whose loads are the same
  double, although the exact ratio of the second is the smaller; the first is chosen.
\<close>

theorem assignBot_least_loaded_witness:
  "distinct (map fst close_pool) \<and>
   list_all (\<lambda>(k, s). k \<noteq> [] \<and> well_formed s) close_pool \<and>
   load close_first = load close_second \<and>
   fst (assignBot close_pool) = Some ''server-1'' \<and>
   (\<exists>i. least_loaded_at close_pool i \<and> fst (close_pool ! i) = ''server-1'' \<and>
        snd (assignBot close_pool) =
          close_pool[i := (''server-1'',
             (snd (close_pool ! i))\<lparr>activeBots := activeBots (snd (close_pool ! i)) + 1\<rparr>)])"
proof -
  have d: "distinct (map fst close_pool)"
    by (simp add: close_pool_def)
  have c: "\<forall>(k, s) \<in> set close_pool. k \<noteq> [] \<and> well_formed s"
    by (simp add: close_pool_def well_formed_def close_first_def close_second_def)
  have c': "list_all (\<lambda>(k, s). k \<noteq> [] \<and> well_formed s) close_pool"
    by (simp add: close_pool_def well_formed_def close_first_def close_second_def)
  have l: "load close_first = load close_second"
    by (simp add: load_def load_close_first load_close_second)
  have o: "server_status close_first = ''online''" "server_status close_second = ''online''"
    by (simp_all add: close_first_def close_second_def)
  have v: "fst (assignBot close_pool) = Some ''server-1''"
    by (simp add: close_pool_def assignBot_def load_close_first load_close_second o)
  from assignBot_least_loaded [OF d c] v d c' l show ?thesis by blast
qed

text \<open>
  C1 as stated fails for a server of capacity zero: its load \<open>0 / 0\<close> is \<open>NaN\<close>,
  which is not below \<open>Infinity\<close>, so \<open>assignBot\<close> returns \<open>null\<close> although the
  server is online.
\<close>

theorem assignBot_zero_capacity_counterexample:
  "fst (assignBot zero_capacity_pool) = None \<and> online_at zero_capacity_pool 0"
  by (simp add: zero_capacity_pool_def assignBot_def loadRatio_def double_div_def online_at_def)
section \<open>Load accounting under assign and release\<close>

lemma map_fst_modify: "map fst (modify k f svs) = map fst svs"
  by (induction svs) auto

lemma map_of_modify:
  "map_of (modify k f svs) k' = (if k' = k then map_option f (map_of svs k) else map_of svs k')"
  by (induction svs) auto

lemma map_fst_step: "map fst (step svs c) = map fst svs"
  by (cases c) (auto simp: assignBot_def releaseBot_def map_fst_modify split: option.splits)

lemma map_fst_run: "map fst (run svs cs) = map fst svs"
  unfolding run_def by (induction cs arbitrary: svs) (simp_all add: map_fst_step)

lemma step_Assign_count:
  assumes "map_of svs k = Some s"
  shows "\<exists>s'. map_of (step svs Assign) k = Some s' \<and>
              activeBots s' = activeBots s + (if fst (assignBot svs) = Some k then 1 else 0)"
  using assms by (auto simp: assignBot_def map_of_modify split: option.splits)

lemma step_Release_count:
  assumes "map_of svs k = Some s"
  shows "\<exists>s'. map_of (step svs (Release i)) k = Some s' \<and>
              activeBots s' = activeBots s + (if i = k then - 1 else 0)"
proof -
  from assms have "k \<in> fst ` set svs" by (metis map_of_eq_None_iff option.distinct(1))
  with assms show ?thesis by (auto simp: releaseBot_def map_of_modify)
qed

lemma run_count:
  "map_of svs k = Some s \<Longrightarrow>
   \<exists>s'. map_of (run svs cs) k = Some s' \<and> activeBots s' = activeBots s + balance svs cs k"
proof (induction cs arbitrary: svs s)
  case Nil
  then show ?case by (simp add: run_def)
next
  case (Cons c cs)
  show ?case
  proof (cases c)
    case Assign
    from step_Assign_count [OF Cons.prems] obtain s1 where
      s1: "map_of (step svs Assign) k = Some s1"
        "activeBots s1 = activeBots s + (if fst (assignBot svs) = Some k then 1 else 0)" by blast
    from Cons.IH [OF s1(1)] s1(2) Assign show ?thesis by (auto simp: run_def)
  next
    case (Release i)
    from step_Release_count [OF Cons.prems, of i] obtain s1 where
      s1: "map_of (step svs (Release i)) k = Some s1"
        "activeBots s1 = activeBots s + (if i = k then - 1 else 0)" by blast
    from Cons.IH [OF s1(1)] s1(2) Release show ?thesis by (auto simp: run_def)
  qed
qed

lemma initial_entry:
  "(k, s) \<in> set (initializeServers t) \<Longrightarrow> activeBots s = 0"
  by (auto simp: initializeServers_def defaultServer_def)

lemma distinct_initial: "distinct (map fst (initializeServers t))"
  by (simp add: initializeServers_def)

text \<open>
  C2, as amended. From the initial registry, after every prefix of every sequence of
  \<open>assignBot\<close> and \<open>releaseBot\<close> calls, the \<open>activeBots\<close> of every server is the
  number of assigns that returned it less the number of releases that named it.
  Nothing clamps the count: it is at least zero exactly when the releases of that
  server have not outnumbered the assigns that returned it.
\<close>

theorem activeBots_counts_calls:
  "\<forall>n \<le> length cs. \<forall>(k, s) \<in> set (run (initializeServers t) (take n cs)).
     activeBots s = balance (initializeServers t) (take n cs) k \<and>
     (0 \<le> activeBots s) = (0 \<le> balance (initializeServers t) (take n cs) k)"
proof (intro allI impI ballI)
  fix n x
  assume x: "x \<in> set (run (initializeServers t) (take n cs))"
  obtain k s where ks: "x = (k, s)" by (cases x)
  let ?r = "run (initializeServers t) (take n cs)"
  have d: "distinct (map fst ?r)" by (simp add: map_fst_run distinct_initial)
  with x ks have m: "map_of ?r k = Some s" by simp
  from x ks have "k \<in> set (map fst ?r)" by force
  then have "k \<in> set (map fst (initializeServers t))" by (simp add: map_fst_run)
  then obtain s0 where s0: "(k, s0) \<in> set (initializeServers t)" by auto
  with distinct_initial have "map_of (initializeServers t) k = Some s0" by simp
  from run_count [OF this, of "take n cs"] m initial_entry [OF s0]
  have "activeBots s = balance (initializeServers t) (take n cs) k" by auto
  then show "case x of (k, s) \<Rightarrow>
     activeBots s = balance (initializeServers t) (take n cs) k \<and>
     (0 \<le> activeBots s) = (0 \<le> balance (initializeServers t) (take n cs) k)"
    using ks by simp
qed

text \<open>An instance: one assign to \<open>server-1\<close> and two releases of it leave it at \<open>-1\<close>.\<close>

theorem activeBots_counts_calls_witness:
  "activeBots (snd (hd (run (initializeServers 0) [Assign, Release ''server-1'', Release ''server-1'']))) =
     balance (initializeServers 0) [Assign, Release ''server-1'', Release ''server-1''] ''server-1'' \<and>
   balance (initializeServers 0) [Assign, Release ''server-1'', Release ''server-1''] ''server-1'' = - 1"
proof -
  let ?cs = "[Assign, Release ''server-1'', Release ''server-1'']"
  have a: "fst (assignBot (initializeServers 0)) = Some ''server-1''"
    by (simp add: assignBot_def loadRatio_def double_div_def initializeServers_def defaultServer_def)
  have k: "map fst (run (initializeServers 0) ?cs) = [''server-1'', ''server-2'', ''server-3'']"
    by (simp add: map_fst_run) (simp add: initializeServers_def)
  then have "fst (hd (run (initializeServers 0) ?cs)) = ''server-1''"
    by (cases "run (initializeServers 0) ?cs") auto
  moreover from k have "hd (run (initializeServers 0) ?cs) \<in> set (run (initializeServers 0) ?cs)"
    by (cases "run (initializeServers 0) ?cs") auto
  moreover from activeBots_counts_calls [of ?cs 0]
  have "\<forall>(k, s) \<in> set (run (initializeServers 0) (take 3 ?cs)).
     activeBots s = balance (initializeServers 0) (take 3 ?cs) k" by fastforce
  ultimately have "activeBots (snd (hd (run (initializeServers 0) ?cs))) =
     balance (initializeServers 0) ?cs ''server-1''" by (auto simp: case_prod_unfold)
  moreover have "balance (initializeServers 0) ?cs ''server-1'' = - 1"
    using a by simp
  ultimately show ?thesis by simp
qed

text \<open>
  C2 as stated fails: a single release on the initial registry takes \<open>server-1\<close>
  below zero.
\<close>

theorem releaseBot_negative_counterexample:
  "activeBots (snd (hd (run (initializeServers 0) [Release ''server-1'']))) = - 1"
  by (simp add: run_def releaseBot_def initializeServers_def defaultServer_def)

section \<open>Health evaluation by type\<close>

text \<open>
  C3, as amended. The verdict of \<open>checkBotHealth\<close> is decided by the type: for
  \<open>discord\<close> and \<open>telegram\<close>, healthy iff \<open>now - lastActive\<close> is below 2 minutes; for
  \<open>web\<close> with a non-empty \<open>config.targetUrl\<close>, healthy iff the GET of that URL with a
  timeout of 5000 ms gives a status below 500, an exception or timeout making it
  unhealthy; for \<open>web\<close> without such a \<open>targetUrl\<close>, healthy, and no request is made;
  for \<open>monitor\<close>, healthy iff \<open>metrics.errors\<close> is below 3; for every other type,
  healthy iff \<open>now - lastActive\<close> is below 5 minutes.
\<close>

theorem checkBotHealth_by_type:
  "fst (checkBotHealth e now b) =
     (if type b = ''discord'' \<or> type b = ''telegram'' then now - lastActive b < 120000
      else if type b = ''web'' then
        (case targetUrl b of
           None \<Rightarrow> True
         | Some u \<Rightarrow> (case httpGet e u 5000 of Response st \<Rightarrow> st < 500 | RequestError \<Rightarrow> False))
      else if type b = ''monitor'' then errors (metrics b) < 3
      else now - lastActive b < 300000) \<and>
   snd (checkBotHealth e now b) =
     (if type b = ''web'' then (case targetUrl b of None \<Rightarrow> [] | Some u \<Rightarrow> [(u, 5000)]) else [])"
  by (simp add: checkBotHealth_def checkDiscordBot_def checkTelegramBot_def checkWebBot_def
      checkMonitorBot_def checkCustomBot_def split: option.split http_result.split)

text \<open>Instances, one for each row, on both sides of each bound.\<close>

theorem checkBotHealth_by_type_witness:
  "fst (checkBotHealth (env_with (answers 503)) 600000
          ((mk_bot 1 ''web'' ''running'' 0 0)\<lparr>config := Some [(''targetUrl'', ''http://a'')]\<rparr>)) = False \<and>
   fst (checkBotHealth (env_with (answers 404)) 600000
          ((mk_bot 1 ''web'' ''running'' 0 0)\<lparr>config := Some [(''targetUrl'', ''http://a'')]\<rparr>)) = True \<and>
   fst (checkBotHealth (env_with unreachable) 600000 (mk_bot 2 ''monitor'' ''running'' 0 2)) = True \<and>
   fst (checkBotHealth (env_with unreachable) 600000 (mk_bot 3 ''discord'' ''running'' 480001 0)) = True \<and>
   fst (checkBotHealth (env_with unreachable) 600000 (mk_bot 3 ''telegram'' ''running'' 480000 0)) = False \<and>
   fst (checkBotHealth (env_with unreachable) 600000 (mk_bot 4 ''custom'' ''running'' 300000 0)) = False \<and>
   fst (checkBotHealth (env_with unreachable) 600000 (mk_bot 4 ''custom'' ''running'' 300001 0)) = True"
  using checkBotHealth_by_type [of "env_with (answers 503)" 600000
          "(mk_bot 1 ''web'' ''running'' 0 0)\<lparr>config := Some [(''targetUrl'', ''http://a'')]\<rparr>"]
    checkBotHealth_by_type [of "env_with (answers 404)" 600000
          "(mk_bot 1 ''web'' ''running'' 0 0)\<lparr>config := Some [(''targetUrl'', ''http://a'')]\<rparr>"]
    checkBotHealth_by_type [of "env_with unreachable" 600000 "mk_bot 2 ''monitor'' ''running'' 0 2"]
    checkBotHealth_by_type [of "env_with unreachable" 600000 "mk_bot 3 ''discord'' ''running'' 480001 0"]
    checkBotHealth_by_type [of "env_with unreachable" 600000 "mk_bot 3 ''telegram'' ''running'' 480000 0"]
    checkBotHealth_by_type [of "env_with unreachable" 600000 "mk_bot 4 ''custom'' ''running'' 300000 0"]
    checkBotHealth_by_type [of "env_with unreachable" 600000 "mk_bot 4 ''custom'' ''running'' 300001 0"]
  by (simp add: mk_bot_def env_with_def answers_def unreachable_def targetUrl_def)

text \<open>
  C3 as stated fails for a \<open>web\<close> bot without a \<open>targetUrl\<close>: no request completes
  here, and the bot is judged healthy.
\<close>

theorem checkBotHealth_web_no_url_counterexample:
  "checkBotHealth (env_with unreachable) 0 (mk_bot 1 ''web'' ''running'' 0 0) = (True, [])"
  by (simp add: checkBotHealth_def checkWebBot_def targetUrl_def mk_bot_def)

text \<open>
  C10. A bot of type \<open>web\<close> whose config is absent, or has no \<open>targetUrl\<close> entry, is
  judged healthy, and no HTTP request is made.
\<close>

theorem checkBotHealth_web_without_targetUrl:
  assumes "type b = ''web''"
    and "config b = None \<or> (\<exists>c. config b = Some c \<and> map_of c ''targetUrl'' = None)"
  shows "checkBotHealth e now b = (True, [])"
  using assms by (auto simp: checkBotHealth_def checkWebBot_def targetUrl_def)

text \<open>
  Instances: a \<open>web\<close> bot with no config and one with the empty config, in an
  environment where any request would have been answered with status 503.
\<close>

theorem checkBotHealth_web_without_targetUrl_witness:
  "type ((mk_bot 7 ''web'' ''running'' 0 0)\<lparr>config := None\<rparr>) = ''web'' \<and>
   config ((mk_bot 7 ''web'' ''running'' 0 0)\<lparr>config := None\<rparr>) = None \<and>
   checkBotHealth (env_with (answers 503)) 1000 ((mk_bot 7 ''web'' ''running'' 0 0)\<lparr>config := None\<rparr>)
     = (True, []) \<and>
   type (mk_bot 8 ''web'' ''running'' 0 0) = ''web'' \<and>
   config (mk_bot 8 ''web'' ''running'' 0 0) = Some [] \<and>
   checkBotHealth (env_with (answers 503)) 1000 (mk_bot 8 ''web'' ''running'' 0 0) = (True, [])"
proof -
  let ?b = "(mk_bot 7 ''web'' ''running'' 0 0)\<lparr>config := None\<rparr>"
  let ?c = "mk_bot 8 ''web'' ''running'' 0 0"
  have t: "type ?b = ''web''" and c: "config ?b = None" by (simp_all add: mk_bot_def)
  have t': "type ?c = ''web''" and c': "config ?c = Some []" by (simp_all add: mk_bot_def)
  from c have h: "config ?b = None \<or> (\<exists>c. config ?b = Some c \<and> map_of c ''targetUrl'' = None)"
    by simp
  from c' have h': "config ?c = None \<or> (\<exists>c. config ?c = Some c \<and> map_of c ''targetUrl'' = None)"
    by simp
  from checkBotHealth_web_without_targetUrl [OF t h, of "env_with (answers 503)" 1000]
    checkBotHealth_web_without_targetUrl [OF t' h', of "env_with (answers 503)" 1000]
    t c t' c'
  show ?thesis by simp
qed

section \<open>Aggregate health sweep\<close>



section \<open>Writes to the store\<close>









section \<open>Heartbeat sweep\<close>






section \<open>Restart sweep\<close>








section \<open>Orphan cleanup\<close>

text \<open>The cleanup sweep has no access to the registry and never changes it.\<close>

lemma cleanup_loop_servers: "servers (snd (cleanup_loop e bs w)) = servers w"
  by (induction bs arbitrary: w)
     (auto simp: stopBot_def logError_def Let_def split: option.splits)

lemma cleanupOrphanedBots_servers: "servers (cleanupOrphanedBots e now w) = servers w"
proof (cases "find_bots e (orphaned now) (db w)")
  case None
  then show ?thesis by (simp add: cleanupOrphanedBots_def logError_def)
next
  case (Some bs)
  obtain r w' where r: "cleanup_loop e bs w = (r, w')" by (cases "cleanup_loop e bs w")
  with cleanup_loop_servers [of e bs w] have "servers w' = servers w" by simp
  with Some r show ?thesis by (cases r) (simp_all add: cleanupOrphanedBots_def logError_def)
qed

text \<open>
  C6, at a failing input. \<open>server-1\<close> counts one bot. The sweep deletes the bot that
  has been idle for 25 hours and leaves the one idle for an hour, but the count of
  \<open>server-1\<close> is still one afterwards: \<open>cleanupOrphanedBots\<close> calls \<open>stopBot\<close> and
  deletes, and never \<open>releaseBot\<close>. The server's delete route, on the same state,
  deletes the bot and takes the count to zero.
\<close>

theorem cleanupOrphanedBots_leaves_slot:
  "map (activeBots \<circ> snd) (servers orphan_world) = [1, 0, 0] \<and>
   db (cleanupOrphanedBots (env_with unreachable) 90000000 orphan_world) =
     [mk_bot 2 ''discord'' ''idle'' 86400000 0] \<and>
   map (activeBots \<circ> snd) (servers (cleanupOrphanedBots (env_with unreachable) 90000000 orphan_world)) =
     [1, 0, 0] \<and>
   db (deleteBotRoute (env_with unreachable) 1 orphan_world) =
     [mk_bot 2 ''discord'' ''idle'' 86400000 0] \<and>
   map (activeBots \<circ> snd) (servers (deleteBotRoute (env_with unreachable) 1 orphan_world)) =
     [0, 0, 0]"
  by (simp add: orphan_world_def world_of_def mk_bot_def env_with_def cleanupOrphanedBots_def
      find_bots_def orphaned_def stopBot_def save_def write_back_def findByIdAndDelete_def
      deleteBotRoute_def findById_def releaseBot_def assignBot_def loadRatio_def double_div_def
      initializeServers_def defaultServer_def Let_def)

section \<open>The two halves of a restart\<close>

lemma restart_begun_eq:
  "restart_begun =
     (world_of [mk_bot 1 ''discord'' ''starting'' 0 2])
       \<lparr>timers := [(3000, CompleteRestart (mk_bot 1 ''discord'' ''starting'' 0 2))]\<rparr>"
  by (simp add: restart_begun_def restartBot_def save_def write_back_def env_with_def world_of_def
      mk_bot_def Let_def)

text \<open>
  C7, at a failing input. The first save of \<open>restartBot\<close> succeeds and the timer is
  set. When the timer fires while the store is failing, the save in the callback is
  rejected outside the \<open>try\<close> of \<open>restartBot\<close>: the stored bot stays in \<open>starting\<close>
  with its error count unchanged, and the unhandled rejection ends the process. When
  the store fails both the first save and the save in the \<open>catch\<close>, the promise of
  \<open>restartBot\<close> itself is rejected.
\<close>

theorem restart_completion_failure_exits:
  "fst (restartBot (env_with unreachable) (mk_bot 1 ''discord'' ''error'' 0 2)
          (world_of [mk_bot 1 ''discord'' ''error'' 0 2])) = Resolved \<and>
   timers restart_begun = [(3000, CompleteRestart (mk_bot 1 ''discord'' ''starting'' 0 2))] \<and>
   db (fire store_down 3000 (CompleteRestart (mk_bot 1 ''discord'' ''starting'' 0 2)) restart_begun) =
     [mk_bot 1 ''discord'' ''starting'' 0 2] \<and>
   exited (fire store_down 3000 (CompleteRestart (mk_bot 1 ''discord'' ''starting'' 0 2)) restart_begun) \<and>
   fst (restartBot store_down (mk_bot 1 ''discord'' ''error'' 0 2)
          (world_of [mk_bot 1 ''discord'' ''error'' 0 2])) = Rejected"
  by (simp add: restart_begun_eq)
     (simp add: restartBot_def fire_def completeRestart_def save_def write_back_def env_with_def
        store_down_def world_of_def mk_bot_def markFailed_def logError_def Let_def)

text \<open>
  C8, as amended. The callback that completes a restart does not read the bot again,
  and nothing cancels its timer. If the bot has been deleted in the meantime it writes
  nothing, so no bot becomes \<open>running\<close>. If the bot is still stored and the store
  accepts the write, it writes the two fields it has assigned onto the stored
  document: the status becomes \<open>running\<close>, whatever it was in the store, \<open>stopped\<close>
  included, and \<open>lastActive\<close> becomes the time of the callback (a captured document
  that carries that very time already has nothing to write there, and the stored
  \<open>lastActive\<close> stays); every other field stays as the store has it, and every other
  document is left alone.
\<close>

theorem completion_does_not_reread:
  "(bot_id b \<notin> bot_id ` set (db w) \<longrightarrow> db (fire e t (CompleteRestart b) w) = db w) \<and>
   (bot_id b \<in> bot_id ` set (db w) \<and> status b = ''starting'' \<and>
    saveOk e (b\<lparr>status := ''running'', lastActive := t\<rparr>) \<longrightarrow>
      db (fire e t (CompleteRestart b) w) =
        map (\<lambda>d. if bot_id d = bot_id b
                 then d\<lparr>status := ''running'',
                        lastActive := (if lastActive b = t then lastActive d else t)\<rparr>
                 else d) (db w))"
proof (intro conjI impI)
  assume "bot_id b \<notin> bot_id ` set (db w)"
  then show "db (fire e t (CompleteRestart b) w) = db w"
    by (simp add: fire_def completeRestart_def save_def logError_def)
next
  let ?b = "b\<lparr>status := ''running'', lastActive := t\<rparr>"
  assume a: "bot_id b \<in> bot_id ` set (db w) \<and> status b = ''starting'' \<and> saveOk e ?b"
  have ne: "?b \<noteq> b"
  proof
    assume "?b = b"
    then have "status ?b = status b" by (rule arg_cong)
    with a show False by simp
  qed
  have wb: "\<And>d. write_back b ?b d =
      d\<lparr>status := ''running'', lastActive := (if lastActive b = t then lastActive d else t)\<rparr>"
    using a by (simp add: write_back_def)
  from a ne have "save e b ?b (db w) =
      Some (map (\<lambda>d. if bot_id d = bot_id b then write_back b ?b d else d) (db w))"
    by (simp add: save_def)
  then show "db (fire e t (CompleteRestart b) w) =
        map (\<lambda>d. if bot_id d = bot_id b
                 then d\<lparr>status := ''running'',
                        lastActive := (if lastActive b = t then lastActive d else t)\<rparr>
                 else d) (db w)"
    by (simp add: fire_def completeRestart_def wb)
qed

text \<open>
  Instances: a bot stopped in the meantime, whose error count another writer has
  raised to 7, is \<open>running\<close> again and keeps the 7; a bot no longer stored stays away.
\<close>

theorem completion_does_not_reread_witness:
  "bot_id (mk_bot 1 ''discord'' ''starting'' 0 2) \<in> bot_id ` set [mk_bot 1 ''discord'' ''stopped'' 0 7] \<and>
   status (mk_bot 1 ''discord'' ''starting'' 0 2) = ''starting'' \<and>
   db (fire (env_with unreachable) 3000 (CompleteRestart (mk_bot 1 ''discord'' ''starting'' 0 2))
      (world_of [mk_bot 1 ''discord'' ''stopped'' 0 7])) = [mk_bot 1 ''discord'' ''running'' 3000 7] \<and>
   bot_id (mk_bot 1 ''discord'' ''starting'' 0 2) \<notin> bot_id ` set [mk_bot 5 ''web'' ''idle'' 0 0] \<and>
   db (fire (env_with unreachable) 3000 (CompleteRestart (mk_bot 1 ''discord'' ''starting'' 0 2))
      (world_of [mk_bot 5 ''web'' ''idle'' 0 0])) = [mk_bot 5 ''web'' ''idle'' 0 0]"
  using completion_does_not_reread [of "mk_bot 1 ''discord'' ''starting'' 0 2"
      "world_of [mk_bot 1 ''discord'' ''stopped'' 0 7]" "env_with unreachable" 3000]
    completion_does_not_reread [of "mk_bot 1 ''discord'' ''starting'' 0 2"
      "world_of [mk_bot 5 ''web'' ''idle'' 0 0]" "env_with unreachable" 3000]
  by (simp add: world_of_def mk_bot_def env_with_def)

text \<open>
  C8 as stated fails: a bot stopped between the two halves of its restart is
  \<open>running\<close> again once the timer has fired.
\<close>

theorem completion_after_stop_counterexample:
  "db restart_begun = [mk_bot 1 ''discord'' ''starting'' 0 2] \<and>
   db (stopBot (env_with unreachable) (mk_bot 1 ''discord'' ''starting'' 0 2) restart_begun) =
     [mk_bot 1 ''discord'' ''stopped'' 0 2] \<and>
   db (fire (env_with unreachable) 3000 (CompleteRestart (mk_bot 1 ''discord'' ''starting'' 0 2))
        (stopBot (env_with unreachable) (mk_bot 1 ''discord'' ''starting'' 0 2) restart_begun)) =
     [mk_bot 1 ''discord'' ''running'' 3000 2]"
  by (simp add: restart_begun_eq)
     (simp add: stopBot_def fire_def completeRestart_def save_def write_back_def env_with_def
        world_of_def mk_bot_def)

end
